theory Spec2Isabelle
  imports Main "HOL-Library.Sublist"
begin

section \<open>Data model of the BugBoard agent SDK\<close>

text \<open>
  The SDK class \<open>BugBoardAgent\<close> keeps a small retry-detection state and posts bug
  reports to an HTTP endpoint. JavaScript strings are modelled as \<open>string\<close>, the
  counter \<open>buildFailures\<close> (a number that starts at 0 and is only incremented or set back
  to 0) as \<open>nat\<close>, and every millisecond reading of \<open>Date.now()\<close> as an \<open>int\<close> that the
  caller of an operation supplies, one argument per reading.
\<close>

type_synonym err = string

record BugReportOptions =
  opt_apiUrl :: "string option"
  opt_agentName :: string

record BugData =
  input :: string
  logs :: string
  error :: "string option"

record RetryDetectionState =
  outputs :: "string list"
  buildFailures :: nat
  lastActivity :: int

record BugBoardAgent =
  apiUrl :: string
  agentName :: string
  retryState :: RetryDetectionState
  timeoutMs :: int

text \<open>The JSON body of the POST request and the request itself.\<close>

record post_body =
  body_agentName :: string
  body_input :: string
  body_logs :: string
  body_error :: "string option"
  body_timestamp :: int

record request =
  req_url :: string
  req_body :: post_body

text \<open>
  What the endpoint answers: a success carries \<open>response.data.id\<close>, a failure the error
  that \<open>axios.post\<close> rejects with.
\<close>

datatype response = Success string | Failure err

record report_result =
  result_id :: string
  result_url :: string

text \<open>
  \<open>reportBug\<close> and \<open>autoReportBug\<close> are \<open>async\<close>: each runs synchronously up to its
  \<open>await\<close> of the POST and resumes when the response arrives. The system state therefore
  holds, besides the agent object, the requests in flight (each tagged with the function
  that awaits it), the lines written with \<open>console.error\<close>, and the outcomes with which
  the promises of manual \<open>reportBug\<close> calls have settled (\<open>Inl\<close> is a rejection).
\<close>

datatype origin = Manual | Auto

record system =
  agent :: BugBoardAgent
  inflight :: "(origin \<times> request) list"
  console :: "(string \<times> err) list"
  settled :: "(err + report_result) list"

section \<open>String helpers of the JavaScript runtime\<close>

text \<open>
  \<open>s.replace(pat, rep)\<close> with a string pattern: only the first occurrence of \<open>pat\<close> is
  replaced (the replacement used by the SDK is the empty string, so no \<open>$\<close> pattern is
  involved).
\<close>

fun js_replace :: "string \<Rightarrow> string \<Rightarrow> string \<Rightarrow> string" where
  "js_replace pat rep [] = (if pat = [] then rep else [])"
| "js_replace pat rep (c # cs) =
     (if prefix pat (c # cs) then rep @ drop (length pat) (c # cs)
      else c # js_replace pat rep cs)"

text \<open>\<open>xs.join(sep)\<close>.\<close>

fun join :: "string \<Rightarrow> string list \<Rightarrow> string" where
  "join sep [] = []"
| "join sep [x] = x"
| "join sep (x # y # ys) = x @ sep @ join sep (y # ys)"

text \<open>\<open>xs.slice(-n)\<close>: the last \<open>n\<close> elements, or all of them when there are fewer.\<close>

definition slice_last :: "nat \<Rightarrow> 'a list \<Rightarrow> 'a list" where
  "slice_last n xs = drop (length xs - n) xs"

text \<open>\<open>xs.shift()\<close>: removes the first element.\<close>

definition shift :: "'a list \<Rightarrow> 'a list" where
  "shift xs = tl xs"

text \<open>The decimal rendering of a natural number in a template literal.\<close>

definition digit_char :: "nat \<Rightarrow> char" where
  "digit_char d = ''0123456789'' ! d"

fun show_nat :: "nat \<Rightarrow> string" where
  "show_nat n = (if n < 10 then [digit_char n] else show_nat (n div 10) @ [digit_char (n mod 10)])"

declare show_nat.simps [simp del]

section \<open>The agent's operations\<close>

definition default_apiUrl :: string where
  "default_apiUrl = ''https://bugboard.ai/api''"

text \<open>The constructor; \<open>now\<close> is the reading of \<open>Date.now()\<close> in the field initialiser.\<close>

definition new_BugBoardAgent :: "BugReportOptions \<Rightarrow> int \<Rightarrow> BugBoardAgent" where
  "new_BugBoardAgent options now =
     \<lparr>apiUrl = (case opt_apiUrl options of
                  None \<Rightarrow> default_apiUrl
                | Some u \<Rightarrow> if u = [] then default_apiUrl else u),
      agentName = opt_agentName options,
      retryState = \<lparr>outputs = [], buildFailures = 0, lastActivity = now\<rparr>,
      timeoutMs = 300000\<rparr>"

definition createBugBoardAgent :: "BugReportOptions \<Rightarrow> int \<Rightarrow> system" where
  "createBugBoardAgent options now =
     \<lparr>agent = new_BugBoardAgent options now, inflight = [], console = [], settled = []\<rparr>"

text \<open>
  \<open>reportBug\<close> up to its \<open>await\<close>: the request handed to \<open>axios.post\<close>. \<open>now\<close> is the
  instant that \<open>new Date().toISOString()\<close> renders.
\<close>

definition reportBug_send :: "BugBoardAgent \<Rightarrow> BugData \<Rightarrow> int \<Rightarrow> request" where
  "reportBug_send this data now =
     \<lparr>req_url = apiUrl this @ ''/bugs'',
      req_body = \<lparr>body_agentName = agentName this,
                  body_input = input data,
                  body_logs = logs data,
                  body_error = error data,
                  body_timestamp = now\<rparr>\<rparr>"

text \<open>
  \<open>reportBug\<close> after its \<open>await\<close>: the value the promise settles with and the console.
  A failure is logged and thrown again.
\<close>

definition reportBug_settle ::
  "BugBoardAgent \<Rightarrow> response \<Rightarrow> (string \<times> err) list \<Rightarrow> (err + report_result) \<times> (string \<times> err) list" where
  "reportBug_settle this resp con =
     (case resp of
        Success rid \<Rightarrow>
          (Inr \<lparr>result_id = rid,
                result_url = js_replace ''/api'' '''' (apiUrl this) @ ''/bugs/'' @ rid\<rparr>, con)
      | Failure e \<Rightarrow> (Inl e, con @ [(''Failed to report bug to BugBoard AI:'', e)]))"

text \<open>A manual call of \<open>reportBug\<close>: the request goes in flight, awaited by the caller.\<close>

definition reportBug :: "BugData \<Rightarrow> int \<Rightarrow> system \<Rightarrow> system" where
  "reportBug data now w =
     w\<lparr>inflight := inflight w @ [(Manual, reportBug_send (agent w) data now)]\<rparr>"

definition resetRetryDetection :: "int \<Rightarrow> BugBoardAgent \<Rightarrow> BugBoardAgent" where
  "resetRetryDetection now this =
     this\<lparr>retryState := \<lparr>outputs = [], buildFailures = 0, lastActivity = now\<rparr>\<rparr>"

definition setTimeout :: "int \<Rightarrow> BugBoardAgent \<Rightarrow> BugBoardAgent" where
  "setTimeout ms this = this\<lparr>timeoutMs := ms\<rparr>"

definition output_separator :: string where
  "output_separator = [CHR 0x0A, CHR 0x0A] @ ''--- Next Output ---'' @ [CHR 0x0A, CHR 0x0A]"

definition auto_error :: "string \<Rightarrow> nat \<Rightarrow> string" where
  "auto_error reason n = ''Auto-reported: '' @ reason @ ''. Build failures: '' @ show_nat n"

text \<open>
  \<open>autoReportBug\<close> up to the \<open>await\<close>: the log blob and the error text are computed from
  the state at the time of the call and the request goes in flight.
\<close>

definition auto_data :: "string \<Rightarrow> BugBoardAgent \<Rightarrow> BugData" where
  "auto_data reason this =
     \<lparr>input = ''Auto-detected issue'',
      logs = join output_separator (outputs (retryState this)),
      error = Some (auto_error reason (buildFailures (retryState this)))\<rparr>"

definition autoReportBug :: "string \<Rightarrow> int \<Rightarrow> system \<Rightarrow> system" where
  "autoReportBug reason now w =
     w\<lparr>inflight := inflight w @ [(Auto, reportBug_send (agent w) (auto_data reason (agent w)) now)]\<rparr>"

text \<open>
  \<open>autoReportBug\<close> after the \<open>await\<close>: on success the state is reset (\<open>now\<close> is the
  reading of \<open>Date.now()\<close> in \<open>resetRetryDetection\<close>), on failure the error is caught and
  logged. The first component is the outcome of the promise of \<open>autoReportBug\<close>.
\<close>

definition autoReportBug_settle :: "response \<Rightarrow> int \<Rightarrow> system \<Rightarrow> (err + unit) \<times> system" where
  "autoReportBug_settle resp now w =
     (case reportBug_settle (agent w) resp (console w) of
        (Inr r, con) \<Rightarrow> (Inr (), w\<lparr>agent := resetRetryDetection now (agent w), console := con\<rparr>)
      | (Inl e, con) \<Rightarrow> (Inr (), w\<lparr>console := con @ [(''Failed to auto-report bug:'', e)]\<rparr>))"

text \<open>
  \<open>checkForStuckAgent\<close>; \<open>now\<close> is its reading of \<open>Date.now()\<close> and \<open>post\<close> the instant of
  the report's timestamp, should a report be made.
\<close>

definition checkForStuckAgent :: "int \<Rightarrow> int \<Rightarrow> system \<Rightarrow> system" where
  "checkForStuckAgent now post w =
     (let timeSinceLastActivity = now - lastActivity (retryState (agent w)) in
      if timeSinceLastActivity > timeoutMs (agent w) then autoReportBug ''Agent timed out'' post w
      else
        (let outs = outputs (retryState (agent w)) in
         if length outs \<ge> 3 then
           (let lastThree = slice_last 3 outs in
            if lastThree ! 0 = lastThree ! 1 \<and> lastThree ! 1 = lastThree ! 2
            then autoReportBug ''Agent stuck in output loop'' post w
            else w)
         else w))"

definition map_retryState :: "(RetryDetectionState \<Rightarrow> RetryDetectionState) \<Rightarrow> system \<Rightarrow> system" where
  "map_retryState f w = w\<lparr>agent := (agent w)\<lparr>retryState := f (retryState (agent w))\<rparr>\<rparr>"

text \<open>
  \<open>trackOutput\<close>; \<open>t_act\<close> is the reading stored in \<open>lastActivity\<close>, \<open>t_chk\<close> the later
  reading inside \<open>checkForStuckAgent\<close>, \<open>t_post\<close> the instant of a report's timestamp.
\<close>

definition trackOutput :: "string \<Rightarrow> int \<Rightarrow> int \<Rightarrow> int \<Rightarrow> system \<Rightarrow> system" where
  "trackOutput output t_act t_chk t_post w =
     (let w1 = map_retryState (\<lambda>rs. rs\<lparr>outputs := outputs rs @ [output]\<rparr>) w;
          w2 = map_retryState (\<lambda>rs. rs\<lparr>lastActivity := t_act\<rparr>) w1;
          w3 = (if length (outputs (retryState (agent w2))) > 5
                then map_retryState (\<lambda>rs. rs\<lparr>outputs := shift (outputs rs)\<rparr>) w2
                else w2)
      in checkForStuckAgent t_chk t_post w3)"

text \<open>\<open>trackBuildFailure\<close>; \<open>t_act\<close> and \<open>t_post\<close> as above.\<close>

definition trackBuildFailure :: "int \<Rightarrow> int \<Rightarrow> system \<Rightarrow> system" where
  "trackBuildFailure t_act t_post w =
     (let w1 = map_retryState (\<lambda>rs. rs\<lparr>buildFailures := buildFailures rs + 1\<rparr>) w;
          w2 = map_retryState (\<lambda>rs. rs\<lparr>lastActivity := t_act\<rparr>) w1
      in if buildFailures (retryState (agent w2)) \<ge> 3
         then autoReportBug ''Multiple build failures detected'' t_post w2
         else w2)"

text \<open>
  The arrival of the response to the \<open>k\<close>-th request in flight: the request leaves the
  list and the function awaiting it resumes. A manual caller's promise settles with the
  outcome of \<open>reportBug\<close>; the promise of \<open>autoReportBug\<close> is held by nobody.
\<close>

definition settle :: "nat \<Rightarrow> response \<Rightarrow> int \<Rightarrow> system \<Rightarrow> system" where
  "settle k resp now w =
     (if k < length (inflight w) then
        (let w' = w\<lparr>inflight := take k (inflight w) @ drop (Suc k) (inflight w)\<rparr> in
         case fst (inflight w ! k) of
           Manual \<Rightarrow>
             (case reportBug_settle (agent w') resp (console w') of
                (res, con) \<Rightarrow> w'\<lparr>console := con, settled := settled w' @ [res]\<rparr>)
         | Auto \<Rightarrow> snd (autoReportBug_settle resp now w'))
      else w)"

section \<open>Runs of the system\<close>

text \<open>
  Everything that can happen to one agent: the calls of its public methods, with the
  clock readings each call makes, and the arrival of a response to a request in flight.
\<close>

datatype event =
    TrackOutput string int int int
  | TrackBuildFailure int int
  | ResetRetryDetection int
  | SetTimeout int
  | ReportBug BugData int
  | Settle nat response int

fun step :: "event \<Rightarrow> system \<Rightarrow> system" where
  "step (TrackOutput output t_act t_chk t_post) w = trackOutput output t_act t_chk t_post w"
| "step (TrackBuildFailure t_act t_post) w = trackBuildFailure t_act t_post w"
| "step (ResetRetryDetection now) w = w\<lparr>agent := resetRetryDetection now (agent w)\<rparr>"
| "step (SetTimeout ms) w = w\<lparr>agent := setTimeout ms (agent w)\<rparr>"
| "step (ReportBug data now) w = reportBug data now w"
| "step (Settle k resp now) w = settle k resp now w"

definition run :: "event list \<Rightarrow> system \<Rightarrow> system" where
  "run es w = foldl (\<lambda>w' e. step e w') w es"

text \<open>
  Whether an event, happening in state \<open>w\<close>, runs \<open>resetRetryDetection\<close>: the method is
  called directly, or a successful response reaches a request awaited by
  \<open>autoReportBug\<close>.
\<close>

fun resets :: "event \<Rightarrow> system \<Rightarrow> bool" where
  "resets (ResetRetryDetection now) w = True"
| "resets (Settle k (Success rid) now) w = (k < length (inflight w) \<and> fst (inflight w ! k) = Auto)"
| "resets _ w = False"

text \<open>
  The outputs tracked since the last reset, in the order of their arrival, along a run
  that starts in \<open>w\<close> with \<open>h\<close> tracked so far.
\<close>

fun tracked_since_reset :: "event list \<Rightarrow> system \<Rightarrow> string list \<Rightarrow> string list" where
  "tracked_since_reset [] w h = h"
| "tracked_since_reset (e # es) w h =
     tracked_since_reset es (step e w)
       (if resets e w then []
        else case e of TrackOutput output t_act t_chk t_post \<Rightarrow> h @ [output] | _ \<Rightarrow> h)"

text \<open>
  The test that \<open>checkForStuckAgent\<close> makes on the output history, and the requests that
  stem from it: those awaited by \<open>autoReportBug\<close> whose error text begins with the
  repetition reason.
\<close>

definition repeats3 :: "string list \<Rightarrow> bool" where
  "repeats3 outs =
     (length outs \<ge> 3 \<and>
      (let lastThree = slice_last 3 outs
       in lastThree ! 0 = lastThree ! 1 \<and> lastThree ! 1 = lastThree ! 2))"

definition is_loop_report :: "origin \<times> request \<Rightarrow> bool" where
  "is_loop_report p =
     (fst p = Auto \<and>
      (case body_error (req_body (snd p)) of
         None \<Rightarrow> False
       | Some e \<Rightarrow> prefix ''Auto-reported: Agent stuck in output loop. '' e))"

text \<open>
  Two derived forms used in the proofs: the output history after the push and the
  eviction of \<open>trackOutput\<close>, and the request that \<open>autoReportBug\<close> puts in flight for an
  agent with the given history and failure count.
\<close>

definition pushed :: "string list \<Rightarrow> string \<Rightarrow> string list" where
  "pushed outs output =
     (if length (outs @ [output]) > 5 then shift (outs @ [output]) else outs @ [output])"

definition auto_request ::
  "BugBoardAgent \<Rightarrow> string \<Rightarrow> string list \<Rightarrow> nat \<Rightarrow> int \<Rightarrow> origin \<times> request" where
  "auto_request this reason outs n post =
     (Auto, \<lparr>req_url = apiUrl this @ ''/bugs'',
             req_body = \<lparr>body_agentName = agentName this,
                         body_input = ''Auto-detected issue'',
                         body_logs = join output_separator outs,
                         body_error = Some (auto_error reason n),
                         body_timestamp = post\<rparr>\<rparr>)"

section \<open>The report URL in the words of the specification\<close>

text \<open>
  The base of the report URL is described as the configured \<open>apiUrl\<close> with only the first
  occurrence of a substring removed. \<open>first_occurrence\<close> is the least position at which
  the substring occurs, if there is one, and \<open>without_first_occurrence\<close> cuts the substring
  out at that position.
\<close>

definition first_occurrence :: "string \<Rightarrow> string \<Rightarrow> nat option" where
  "first_occurrence pat s = find (\<lambda>i. prefix pat (drop i s)) [0..<Suc (length s)]"

definition without_first_occurrence :: "string \<Rightarrow> string \<Rightarrow> string" where
  "without_first_occurrence pat s =
     (case first_occurrence pat s of
        None \<Rightarrow> s
      | Some i \<Rightarrow> take i s @ drop (i + length pat) s)"

section \<open>Example systems\<close>

text \<open>
  Concrete agents and runs at which the theorems below are instantiated: an agent
  constructed at instant 0 with the default endpoint; the same agent after three
  identical outputs at instants 0, 1 and 2; the same agent with one manual report in
  flight; and two agents configured with an endpoint of their own, one whose host name
  begins with \<open>api\<close> and one without any \<open>/api\<close>.
\<close>

definition example_system :: system where
  "example_system = createBugBoardAgent \<lparr>opt_apiUrl = None, opt_agentName = ''agent''\<rparr> 0"

definition stuck_system :: system where
  "stuck_system =
     run [TrackOutput ''a'' 0 0 0, TrackOutput ''a'' 1 1 1, TrackOutput ''a'' 2 2 2] example_system"

definition manual_system :: system where
  "manual_system = reportBug \<lparr>input = ''x'', logs = ''y'', error = None\<rparr> 0 example_system"

definition host_system :: system where
  "host_system =
     createBugBoardAgent
       \<lparr>opt_apiUrl = Some ''https://api.example.com/api'', opt_agentName = ''agent''\<rparr> 0"

definition local_system :: system where
  "local_system =
     createBugBoardAgent
       \<lparr>opt_apiUrl = Some ''http://localhost:3001'', opt_agentName = ''agent''\<rparr> 0"

section \<open>Basic facts about the operations\<close>

lemma autoReportBug_fields:
  "agent (autoReportBug reason now w) = agent w"
  "console (autoReportBug reason now w) = console w"
  "settled (autoReportBug reason now w) = settled w"
  by (simp_all add: autoReportBug_def)

lemma inflight_autoReportBug:
  "inflight (autoReportBug reason now w) =
     inflight w @ [auto_request (agent w) reason (outputs (retryState (agent w)))
                     (buildFailures (retryState (agent w))) now]"
  by (simp add: autoReportBug_def auto_request_def reportBug_send_def auto_data_def)

lemma map_retryState_fields:
  "retryState (agent (map_retryState f w)) = f (retryState (agent w))"
  "apiUrl (agent (map_retryState f w)) = apiUrl (agent w)"
  "agentName (agent (map_retryState f w)) = agentName (agent w)"
  "timeoutMs (agent (map_retryState f w)) = timeoutMs (agent w)"
  "inflight (map_retryState f w) = inflight w"
  "console (map_retryState f w) = console w"
  "settled (map_retryState f w) = settled w"
  by (simp_all add: map_retryState_def)

lemma checkForStuckAgent_eq:
  "checkForStuckAgent now post w =
     (if now - lastActivity (retryState (agent w)) > timeoutMs (agent w)
      then autoReportBug ''Agent timed out'' post w
      else if repeats3 (outputs (retryState (agent w)))
      then autoReportBug ''Agent stuck in output loop'' post w
      else w)"
  by (simp add: checkForStuckAgent_def repeats3_def Let_def)

lemma trackOutput_fields:
  "retryState (agent (trackOutput out t_act t_chk t_post w)) =
     \<lparr>outputs = pushed (outputs (retryState (agent w))) out,
      buildFailures = buildFailures (retryState (agent w)),
      lastActivity = t_act\<rparr>"
  "apiUrl (agent (trackOutput out t_act t_chk t_post w)) = apiUrl (agent w)"
  "agentName (agent (trackOutput out t_act t_chk t_post w)) = agentName (agent w)"
  "timeoutMs (agent (trackOutput out t_act t_chk t_post w)) = timeoutMs (agent w)"
  "console (trackOutput out t_act t_chk t_post w) = console w"
  "settled (trackOutput out t_act t_chk t_post w) = settled w"
  by (simp_all add: trackOutput_def checkForStuckAgent_eq autoReportBug_fields
      map_retryState_fields pushed_def Let_def)

lemma inflight_trackOutput:
  "inflight (trackOutput out t_act t_chk t_post w) =
     inflight w @
     (if t_chk - t_act > timeoutMs (agent w)
      then [auto_request (agent w) ''Agent timed out''
              (pushed (outputs (retryState (agent w))) out)
              (buildFailures (retryState (agent w))) t_post]
      else if repeats3 (pushed (outputs (retryState (agent w))) out)
      then [auto_request (agent w) ''Agent stuck in output loop''
              (pushed (outputs (retryState (agent w))) out)
              (buildFailures (retryState (agent w))) t_post]
      else [])"
  by (simp add: trackOutput_def checkForStuckAgent_eq inflight_autoReportBug
      map_retryState_fields pushed_def Let_def auto_request_def)

lemma trackBuildFailure_fields:
  "retryState (agent (trackBuildFailure t_act t_post w)) =
     \<lparr>outputs = outputs (retryState (agent w)),
      buildFailures = buildFailures (retryState (agent w)) + 1,
      lastActivity = t_act\<rparr>"
  "apiUrl (agent (trackBuildFailure t_act t_post w)) = apiUrl (agent w)"
  "agentName (agent (trackBuildFailure t_act t_post w)) = agentName (agent w)"
  "timeoutMs (agent (trackBuildFailure t_act t_post w)) = timeoutMs (agent w)"
  "console (trackBuildFailure t_act t_post w) = console w"
  "settled (trackBuildFailure t_act t_post w) = settled w"
  by (simp_all add: trackBuildFailure_def autoReportBug_fields map_retryState_fields Let_def)

lemma inflight_trackBuildFailure:
  "inflight (trackBuildFailure t_act t_post w) =
     inflight w @
     (if buildFailures (retryState (agent w)) + 1 \<ge> 3
      then [auto_request (agent w) ''Multiple build failures detected''
              (outputs (retryState (agent w)))
              (buildFailures (retryState (agent w)) + 1) t_post]
      else [])"
  by (simp add: trackBuildFailure_def inflight_autoReportBug map_retryState_fields Let_def
      auto_request_def)

lemma retryState_resetRetryDetection:
  "retryState (resetRetryDetection now this) = \<lparr>outputs = [], buildFailures = 0, lastActivity = now\<rparr>"
  "apiUrl (resetRetryDetection now this) = apiUrl this"
  "agentName (resetRetryDetection now this) = agentName this"
  "timeoutMs (resetRetryDetection now this) = timeoutMs this"
  by (simp_all add: resetRetryDetection_def)

lemma createBugBoardAgent_fields:
  "retryState (agent (createBugBoardAgent options now)) =
     \<lparr>outputs = [], buildFailures = 0, lastActivity = now\<rparr>"
  "timeoutMs (agent (createBugBoardAgent options now)) = 300000"
  "agentName (agent (createBugBoardAgent options now)) = opt_agentName options"
  "inflight (createBugBoardAgent options now) = []"
  "console (createBugBoardAgent options now) = []"
  "settled (createBugBoardAgent options now) = []"
  by (simp_all add: createBugBoardAgent_def new_BugBoardAgent_def)

subsection \<open>Responses\<close>

lemma settle_out_of_range: "\<not> k < length (inflight w) \<Longrightarrow> settle k resp now w = w"
  by (simp add: settle_def)

lemma settle_Auto_Success:
  assumes "k < length (inflight w)" and "fst (inflight w ! k) = Auto"
  shows "agent (settle k (Success rid) now w) = resetRetryDetection now (agent w)"
    and "inflight (settle k (Success rid) now w) = take k (inflight w) @ drop (Suc k) (inflight w)"
    and "console (settle k (Success rid) now w) = console w"
    and "settled (settle k (Success rid) now w) = settled w"
  using assms by (simp_all add: settle_def autoReportBug_settle_def reportBug_settle_def)

lemma settle_Auto_Failure:
  assumes "k < length (inflight w)" and "fst (inflight w ! k) = Auto"
  shows "agent (settle k (Failure e) now w) = agent w"
    and "inflight (settle k (Failure e) now w) = take k (inflight w) @ drop (Suc k) (inflight w)"
    and "console (settle k (Failure e) now w) =
           console w @ [(''Failed to report bug to BugBoard AI:'', e),
                        (''Failed to auto-report bug:'', e)]"
    and "settled (settle k (Failure e) now w) = settled w"
  using assms by (simp_all add: settle_def autoReportBug_settle_def reportBug_settle_def)

lemma settle_Manual:
  assumes "k < length (inflight w)" and "fst (inflight w ! k) = Manual"
  shows "agent (settle k resp now w) = agent w"
    and "inflight (settle k resp now w) = take k (inflight w) @ drop (Suc k) (inflight w)"
    and "console (settle k resp now w) = snd (reportBug_settle (agent w) resp (console w))"
    and "settled (settle k resp now w) =
           settled w @ [fst (reportBug_settle (agent w) resp (console w))]"
  using assms by (simp_all add: settle_def split: prod.splits)

subsection \<open>Runs\<close>

lemma run_Nil: "run [] w = w"
  by (simp add: run_def)

lemma run_Cons: "run (e # es) w = run es (step e w)"
  by (simp add: run_def)

lemma run_append: "run (es @ es') w = run es' (run es w)"
  by (simp add: run_def)

subsection \<open>The output history\<close>

lemma slice_last_rev: "slice_last n xs = rev (take n (rev xs))"
  by (simp add: slice_last_def rev_take)

lemma repeats3_iff: "repeats3 outs \<longleftrightarrow> (\<exists>a. take 3 (rev outs) = [a, a, a])"
proof (cases "rev outs")
  case Nil
  then show ?thesis by (simp add: repeats3_def)
next
  case (Cons x xs)
  note c1 = this
  show ?thesis
  proof (cases xs)
    case Nil
    with c1 show ?thesis by (simp add: repeats3_def)
  next
    case (Cons y ys)
    note c2 = this
    show ?thesis
    proof (cases ys)
      case Nil
      with c1 c2 have "length (rev outs) = 2" by simp
      then have "length outs = 2" by simp
      with c1 c2 Nil show ?thesis by (simp add: repeats3_def)
    next
      case (Cons z zs)
      with c1 c2 have r: "rev outs = x # y # z # zs" by simp
      then have "length (rev outs) \<ge> 3" by simp
      then have l: "length outs \<ge> 3" by simp
      have "slice_last 3 outs = [z, y, x]"
        by (simp add: slice_last_rev r)
      with l r show ?thesis by (auto simp: repeats3_def)
    qed
  qed
qed

lemma repeats3_small: "\<not> repeats3 []" "\<not> repeats3 [x]" "\<not> repeats3 [x, y]"
  by (simp_all add: repeats3_def)

lemma repeats3_three: "repeats3 [x, y, z] \<longleftrightarrow> x = y \<and> y = z"
  by (auto simp add: repeats3_iff)

lemma rev_pushed:
  "rev (pushed outs out) = out # (if 5 \<le> length outs then butlast (rev outs) else rev outs)"
  by (cases outs) (simp_all add: pushed_def shift_def butlast_append)

lemma take_rev_pushed:
  assumes "k \<le> 4"
  shows "take (Suc k) (rev (pushed outs out)) = out # take k (rev outs)"
proof (cases "5 \<le> length outs")
  case True
  with assms have "k < length (rev outs)" by simp
  then have "take k (butlast (rev outs)) = take k (rev outs)" by (rule take_butlast)
  with True show ?thesis by (simp add: rev_pushed)
next
  case False
  then show ?thesis by (simp add: rev_pushed)
qed

lemma take3_rev_pushed: "take 3 (rev (pushed outs out)) = out # take 2 (rev outs)"
  using take_rev_pushed [of 2 outs out] by (simp add: numeral_3_eq_3 numeral_2_eq_2)

lemma take2_rev_pushed: "take 2 (rev (pushed outs out)) = out # take 1 (rev outs)"
  using take_rev_pushed [of 1 outs out] by (simp add: numeral_2_eq_2)

lemma repeats3_pushed: "repeats3 (pushed outs out) \<longleftrightarrow> take 2 (rev outs) = [out, out]"
  by (auto simp: repeats3_iff take3_rev_pushed)

lemma pushed_small: "length outs < 5 \<Longrightarrow> pushed outs out = outs @ [out]"
  by (simp add: pushed_def)

lemma pushed_slice_last:
  assumes "length outs \<le> 5"
  shows "pushed outs out = slice_last 5 (outs @ [out])"
proof (cases "length outs = 5")
  case True
  then obtain a list where "outs = a # list" "length list = 4" by (cases outs) auto
  then show ?thesis by (simp add: pushed_def shift_def slice_last_def)
next
  case False
  with assms have "length outs < 5" by simp
  then show ?thesis by (simp add: pushed_def slice_last_def)
qed

lemma length_pushed: "length outs \<le> 5 \<Longrightarrow> length (pushed outs out) \<le> 5"
  by (simp add: pushed_def shift_def)

lemma slice_last_snoc: "slice_last 5 (slice_last 5 h @ [x]) = slice_last 5 (h @ [x])"
proof (cases "length h \<le> 5")
  case True
  then show ?thesis by (simp add: slice_last_def)
next
  case False
  then have "length h - (length h - 5 + 4) + (length h - 5) = length h - 4" by arith
  then show ?thesis by (simp add: slice_last_def)
qed

lemma length_slice_last: "length (slice_last n xs) \<le> n"
  by (simp add: slice_last_def)

subsection \<open>Rendering of the failure count\<close>

lemma show_nat_digit: "n < 10 \<Longrightarrow> show_nat n = [digit_char n]"
  by (simp add: show_nat.simps)

lemma show_nat_0: "show_nat 0 = ''0''"
  by (simp add: show_nat_digit digit_char_def)

lemma show_nat_3: "show_nat 3 = ''3''"
  by (simp add: show_nat_digit digit_char_def)

subsection \<open>The example systems\<close>

lemma example_system_fields:
  "retryState (agent example_system) = \<lparr>outputs = [], buildFailures = 0, lastActivity = 0\<rparr>"
  "timeoutMs (agent example_system) = 300000"
  "apiUrl (agent example_system) = ''https://bugboard.ai/api''"
  "agentName (agent example_system) = ''agent''"
  "inflight example_system = []"
  "console example_system = []"
  "settled example_system = []"
  by (simp_all add: example_system_def createBugBoardAgent_def new_BugBoardAgent_def
      default_apiUrl_def)

lemma stuck_system_fields:
  "retryState (agent stuck_system) =
     \<lparr>outputs = [''a'', ''a'', ''a''], buildFailures = 0, lastActivity = 2\<rparr>"
  "inflight stuck_system =
     [auto_request (agent example_system) ''Agent stuck in output loop'' [''a'', ''a'', ''a''] 0 2]"
  "console stuck_system = []"
  "settled stuck_system = []"
  by (simp_all add: stuck_system_def run_Cons run_Nil inflight_trackOutput trackOutput_fields
      example_system_fields pushed_small repeats3_small repeats3_three auto_request_def)

lemma manual_system_fields:
  "agent manual_system = agent example_system"
  "inflight manual_system =
     [(Manual, \<lparr>req_url = ''https://bugboard.ai/api/bugs'',
                 req_body = \<lparr>body_agentName = ''agent'', body_input = ''x'', body_logs = ''y'',
                             body_error = None, body_timestamp = 0\<rparr>\<rparr>)]"
  "console manual_system = []"
  "settled manual_system = []"
  by (simp_all add: manual_system_def reportBug_def reportBug_send_def example_system_fields)

lemma host_system_fields:
  "apiUrl (agent host_system) = ''https://api.example.com/api''"
  "inflight host_system = []"
  "settled host_system = []"
  by (simp_all add: host_system_def createBugBoardAgent_def new_BugBoardAgent_def)

lemma local_system_fields:
  "apiUrl (agent local_system) = ''http://localhost:3001''"
  "inflight local_system = []"
  "settled local_system = []"
  by (simp_all add: local_system_def createBugBoardAgent_def new_BugBoardAgent_def)

section \<open>The timeout check\<close>

text \<open>
  \<open>trackOutput\<close> stores its own clock reading in \<open>lastActivity\<close> before it calls
  \<open>checkForStuckAgent\<close>, so the elapsed time that the check compares with \<open>timeoutMs\<close> is
  the time between the two readings made inside the one call. The timeout report is
  made exactly when that time exceeds \<open>timeoutMs\<close>, whatever \<open>lastActivity\<close> held before
  the call.
\<close>

lemma trackOutput_timeout_branch:
  "inflight (trackOutput out t_act t_chk t_post w) =
     inflight w @ [auto_request (agent w) ''Agent timed out''
                     (pushed (outputs (retryState (agent w))) out)
                     (buildFailures (retryState (agent w))) t_post]
   \<longleftrightarrow> t_chk - t_act > timeoutMs (agent w)"
  by (auto simp add: inflight_trackOutput auto_request_def auto_error_def)

lemma trackOutput_ignores_previous_activity:
  "inflight (trackOutput out t_act t_chk t_post
       (map_retryState (\<lambda>rs. rs\<lparr>lastActivity := t0\<rparr>) w)) =
   inflight (trackOutput out t_act t_chk t_post w)"
  by (simp add: inflight_trackOutput map_retryState_fields auto_request_def)

text \<open>
  Claim C1. The scenario of the claim, evaluated on the code: an agent whose timeout is
  set to 100 ms tracks \<open>"a"\<close> at instant 0 and again at instant 150 (the clock stands
  still during each call). The claim expects one automatic report with the reason
  "agent timed out" from the second call; the code makes no report at all, since the
  second call has overwritten \<open>lastActivity\<close> with 150 before the elapsed time is
  computed, and two outputs are below the repetition threshold.
\<close>

theorem timeout_scenario_no_report:
  "inflight (run [SetTimeout 100, TrackOutput ''a'' 0 0 0, TrackOutput ''a'' 150 150 150]
      (createBugBoardAgent \<lparr>opt_apiUrl = None, opt_agentName = ''agent''\<rparr> 0)) = []"
  by (simp add: run_Cons run_Nil inflight_trackOutput trackOutput_fields createBugBoardAgent_fields
      setTimeout_def pushed_small repeats3_small)

section \<open>Escalation\<close>

text \<open>
  Claim C2, as stated, fails: after an automatic report whose submission fails, the
  detection state is not back in its initial form. Three identical outputs trigger a
  report; the endpoint answers with an error; the request is no longer in flight and
  the output history still holds the three outputs.
\<close>

theorem failed_escalation_keeps_state:
  "outputs (retryState (agent (run
      [TrackOutput ''a'' 0 0 0, TrackOutput ''a'' 1 1 1, TrackOutput ''a'' 2 2 2,
       Settle 0 (Failure ''503'') 3]
      (createBugBoardAgent \<lparr>opt_apiUrl = None, opt_agentName = ''agent''\<rparr> 0)))) =
     [''a'', ''a'', ''a'']
   \<and> inflight (run
      [TrackOutput ''a'' 0 0 0, TrackOutput ''a'' 1 1 1, TrackOutput ''a'' 2 2 2,
       Settle 0 (Failure ''503'') 3]
      (createBugBoardAgent \<lparr>opt_apiUrl = None, opt_agentName = ''agent''\<rparr> 0)) = []"
  by (simp add: run_Cons run_Nil inflight_trackOutput trackOutput_fields createBugBoardAgent_fields
      pushed_small repeats3_small repeats3_three settle_Auto_Failure auto_request_def)

text \<open>
  Claim C2, amended. When the response to an automatic report arrives, the request
  leaves the requests in flight and the promise of \<open>autoReportBug\<close> is fulfilled, whatever
  the response. If the submission succeeded, the detection state returns to its initial
  empty form (no outputs, no build failures, \<open>lastActivity\<close> the instant of the reset),
  the rest of the agent is unchanged and nothing is logged. If it failed, the error is
  caught and logged (once by \<open>reportBug\<close>, once by \<open>autoReportBug\<close>), no outcome reaches a
  caller, and the agent, with its detection state, is left as it was.
\<close>

theorem escalation_settle:
  assumes "k < length (inflight w)" and "fst (inflight w ! k) = Auto"
  shows "retryState (agent (settle k (Success rid) now w)) =
           \<lparr>outputs = [], buildFailures = 0, lastActivity = now\<rparr>
       \<and> retryState (agent (settle k (Failure e) now w)) = retryState (agent w)
       \<and> agent (settle k (Success rid) now w) = resetRetryDetection now (agent w)
       \<and> apiUrl (agent (settle k (Success rid) now w)) = apiUrl (agent w)
       \<and> agentName (agent (settle k (Success rid) now w)) = agentName (agent w)
       \<and> timeoutMs (agent (settle k (Success rid) now w)) = timeoutMs (agent w)
       \<and> console (settle k (Success rid) now w) = console w
       \<and> settled (settle k (Success rid) now w) = settled w
       \<and> inflight (settle k (Success rid) now w) =
           take k (inflight w) @ drop (Suc k) (inflight w)
       \<and> agent (settle k (Failure e) now w) = agent w
       \<and> console (settle k (Failure e) now w) =
           console w @ [(''Failed to report bug to BugBoard AI:'', e),
                        (''Failed to auto-report bug:'', e)]
       \<and> settled (settle k (Failure e) now w) = settled w
       \<and> inflight (settle k (Failure e) now w) =
           take k (inflight w) @ drop (Suc k) (inflight w)
       \<and> fst (autoReportBug_settle (Success rid) now
                (w\<lparr>inflight := take k (inflight w) @ drop (Suc k) (inflight w)\<rparr>)) = Inr ()
       \<and> fst (autoReportBug_settle (Failure e) now
                (w\<lparr>inflight := take k (inflight w) @ drop (Suc k) (inflight w)\<rparr>)) = Inr ()
       \<and> settle k (Success rid) now w =
           snd (autoReportBug_settle (Success rid) now
                  (w\<lparr>inflight := take k (inflight w) @ drop (Suc k) (inflight w)\<rparr>))
       \<and> settle k (Failure e) now w =
           snd (autoReportBug_settle (Failure e) now
                  (w\<lparr>inflight := take k (inflight w) @ drop (Suc k) (inflight w)\<rparr>))"
proof -
  let ?w' = "w\<lparr>inflight := take k (inflight w) @ drop (Suc k) (inflight w)\<rparr>"
  have f: "retryState (agent (settle k (Success rid) now w)) =
           \<lparr>outputs = [], buildFailures = 0, lastActivity = now\<rparr>
       \<and> retryState (agent (settle k (Failure e) now w)) = retryState (agent w)
       \<and> agent (settle k (Success rid) now w) = resetRetryDetection now (agent w)
       \<and> apiUrl (agent (settle k (Success rid) now w)) = apiUrl (agent w)
       \<and> agentName (agent (settle k (Success rid) now w)) = agentName (agent w)
       \<and> timeoutMs (agent (settle k (Success rid) now w)) = timeoutMs (agent w)
       \<and> console (settle k (Success rid) now w) = console w
       \<and> settled (settle k (Success rid) now w) = settled w
       \<and> inflight (settle k (Success rid) now w) =
           take k (inflight w) @ drop (Suc k) (inflight w)
       \<and> agent (settle k (Failure e) now w) = agent w
       \<and> console (settle k (Failure e) now w) =
           console w @ [(''Failed to report bug to BugBoard AI:'', e),
                        (''Failed to auto-report bug:'', e)]
       \<and> settled (settle k (Failure e) now w) = settled w
       \<and> inflight (settle k (Failure e) now w) =
           take k (inflight w) @ drop (Suc k) (inflight w)"
    by (simp add: settle_Auto_Success [OF assms] settle_Auto_Failure [OF assms]
        retryState_resetRetryDetection)
  have o1: "fst (autoReportBug_settle (Success rid) now ?w') = Inr ()"
    by (simp add: autoReportBug_settle_def reportBug_settle_def)
  have o2: "fst (autoReportBug_settle (Failure e) now ?w') = Inr ()"
    by (simp add: autoReportBug_settle_def reportBug_settle_def)
  have s1: "settle k (Success rid) now w = snd (autoReportBug_settle (Success rid) now ?w')"
    using assms by (simp add: settle_def)
  have s2: "settle k (Failure e) now w = snd (autoReportBug_settle (Failure e) now ?w')"
    using assms by (simp add: settle_def)
  from f o1 o2 s1 s2 show ?thesis
    by (elim conjE, intro conjI) assumption+
qed

theorem escalation_settle_witness:
  "0 < length (inflight stuck_system) \<and> fst (inflight stuck_system ! 0) = Auto
   \<and> retryState (agent (settle 0 (Success ''7'') 5 stuck_system)) =
           \<lparr>outputs = [], buildFailures = 0, lastActivity = 5\<rparr>
   \<and> console (settle 0 (Success ''7'') 5 stuck_system) = []
   \<and> settled (settle 0 (Success ''7'') 5 stuck_system) = []
   \<and> inflight (settle 0 (Success ''7'') 5 stuck_system) = []
   \<and> retryState (agent (settle 0 (Failure ''503'') 5 stuck_system)) =
           \<lparr>outputs = [''a'', ''a'', ''a''], buildFailures = 0, lastActivity = 2\<rparr>
   \<and> console (settle 0 (Failure ''503'') 5 stuck_system) =
       [(''Failed to report bug to BugBoard AI:'', ''503''), (''Failed to auto-report bug:'', ''503'')]
   \<and> settled (settle 0 (Failure ''503'') 5 stuck_system) = []
   \<and> inflight (settle 0 (Failure ''503'') 5 stuck_system) = []"
proof -
  have h: "0 < length (inflight stuck_system)" "fst (inflight stuck_system ! 0) = Auto"
    by (simp_all add: stuck_system_fields auto_request_def)
  from escalation_settle [OF h, where rid = "''7''" and now = 5 and e = "''503''"]
  have c: "retryState (agent (settle 0 (Success ''7'') 5 stuck_system)) =
             \<lparr>outputs = [], buildFailures = 0, lastActivity = 5\<rparr>
     \<and> console (settle 0 (Success ''7'') 5 stuck_system) = console stuck_system
     \<and> settled (settle 0 (Success ''7'') 5 stuck_system) = settled stuck_system
     \<and> inflight (settle 0 (Success ''7'') 5 stuck_system) =
         take 0 (inflight stuck_system) @ drop (Suc 0) (inflight stuck_system)
     \<and> retryState (agent (settle 0 (Failure ''503'') 5 stuck_system)) =
         retryState (agent stuck_system)
     \<and> console (settle 0 (Failure ''503'') 5 stuck_system) =
         console stuck_system @ [(''Failed to report bug to BugBoard AI:'', ''503''),
                                 (''Failed to auto-report bug:'', ''503'')]
     \<and> settled (settle 0 (Failure ''503'') 5 stuck_system) = settled stuck_system
     \<and> inflight (settle 0 (Failure ''503'') 5 stuck_system) =
         take 0 (inflight stuck_system) @ drop (Suc 0) (inflight stuck_system)"
    by (elim conjE, intro conjI) assumption+
  from c h show ?thesis
    by (simp add: stuck_system_fields)
qed

text \<open>
  Claim C3. From a freshly reset state, three consecutive \<open>trackOutput\<close> calls with the
  same text (none of which sees more than \<open>timeoutMs\<close> pass between its two clock
  readings) put exactly one request in flight: the automatic report with the reason
  \<open>Agent stuck in output loop\<close>, sent by the third call with the three outputs as its
  log. When the endpoint answers that request with a success, the detection state is
  empty (no outputs, no build failures) and the request is gone.
\<close>

theorem three_identical_outputs:
  assumes "outputs (retryState (agent w)) = []" and "buildFailures (retryState (agent w)) = 0"
    and "c1 - a1 \<le> timeoutMs (agent w)" and "c2 - a2 \<le> timeoutMs (agent w)"
    and "c3 - a3 \<le> timeoutMs (agent w)"
  shows "inflight (run [TrackOutput s a1 c1 p1, TrackOutput s a2 c2 p2, TrackOutput s a3 c3 p3] w) =
           inflight w @
           [(Auto, \<lparr>req_url = apiUrl (agent w) @ ''/bugs'',
                    req_body = \<lparr>body_agentName = agentName (agent w),
                                body_input = ''Auto-detected issue'',
                                body_logs = s @ output_separator @ s @ output_separator @ s,
                                body_error =
                                  Some ''Auto-reported: Agent stuck in output loop. Build failures: 0'',
                                body_timestamp = p3\<rparr>\<rparr>)]
       \<and> retryState (agent (run [TrackOutput s a1 c1 p1, TrackOutput s a2 c2 p2,
                                  TrackOutput s a3 c3 p3,
                                  Settle (length (inflight w)) (Success rid) t] w)) =
           \<lparr>outputs = [], buildFailures = 0, lastActivity = t\<rparr>
       \<and> inflight (run [TrackOutput s a1 c1 p1, TrackOutput s a2 c2 p2, TrackOutput s a3 c3 p3,
                        Settle (length (inflight w)) (Success rid) t] w) = inflight w"
proof -
  let ?w1 = "trackOutput s a1 c1 p1 w"
  let ?w2 = "trackOutput s a2 c2 p2 ?w1"
  let ?w3 = "trackOutput s a3 c3 p3 ?w2"
  have o1: "outputs (retryState (agent ?w1)) = [s]"
    using assms(1) by (simp add: trackOutput_fields pushed_small)
  have o2: "outputs (retryState (agent ?w2)) = [s, s]"
    using o1 by (simp add: trackOutput_fields pushed_small)
  have i1: "inflight ?w1 = inflight w"
    using assms by (simp add: inflight_trackOutput pushed_small repeats3_small)
  have i2: "inflight ?w2 = inflight w"
    using assms o1 i1
    by (simp add: inflight_trackOutput trackOutput_fields pushed_small repeats3_small)
  have i3: "inflight ?w3 =
              inflight w @ [auto_request (agent w) ''Agent stuck in output loop'' [s, s, s] 0 p3]"
    using assms o2 i2
    by (simp add: inflight_trackOutput trackOutput_fields pushed_small repeats3_three
        auto_request_def)
  have k: "length (inflight w) < length (inflight ?w3)"
    "fst (inflight ?w3 ! length (inflight w)) = Auto"
    by (simp_all add: i3 auto_request_def)
  have r: "retryState (agent (settle (length (inflight w)) (Success rid) t ?w3)) =
             \<lparr>outputs = [], buildFailures = 0, lastActivity = t\<rparr>"
    by (simp add: settle_Auto_Success(1) [OF k] retryState_resetRetryDetection)
  have f: "inflight (settle (length (inflight w)) (Success rid) t ?w3) = inflight w"
    by (simp add: settle_Auto_Success(2) [OF k] i3)
  have e: "auto_error ''Agent stuck in output loop'' 0 =
             ''Auto-reported: Agent stuck in output loop. Build failures: 0''"
    by (simp add: auto_error_def show_nat_0)
  show ?thesis
    using i3 r f by (simp add: run_Cons run_Nil auto_request_def e)
qed

theorem three_identical_outputs_witness:
  "outputs (retryState (agent example_system)) = []
   \<and> buildFailures (retryState (agent example_system)) = 0
   \<and> (0::int) - 0 \<le> timeoutMs (agent example_system)
   \<and> (1::int) - 1 \<le> timeoutMs (agent example_system)
   \<and> (2::int) - 2 \<le> timeoutMs (agent example_system)
   \<and> inflight (run [TrackOutput ''a'' 0 0 0, TrackOutput ''a'' 1 1 1, TrackOutput ''a'' 2 2 2]
        example_system) =
       [(Auto, \<lparr>req_url = ''https://bugboard.ai/api/bugs'',
                req_body = \<lparr>body_agentName = ''agent'',
                            body_input = ''Auto-detected issue'',
                            body_logs = ''a'' @ output_separator @ ''a'' @ output_separator @ ''a'',
                            body_error =
                              Some ''Auto-reported: Agent stuck in output loop. Build failures: 0'',
                            body_timestamp = 2\<rparr>\<rparr>)]
   \<and> retryState (agent (run [TrackOutput ''a'' 0 0 0, TrackOutput ''a'' 1 1 1,
                              TrackOutput ''a'' 2 2 2, Settle 0 (Success ''7'') 3]
        example_system)) = \<lparr>outputs = [], buildFailures = 0, lastActivity = 3\<rparr>
   \<and> inflight (run [TrackOutput ''a'' 0 0 0, TrackOutput ''a'' 1 1 1, TrackOutput ''a'' 2 2 2,
                    Settle 0 (Success ''7'') 3] example_system) = []"
proof -
  have h: "outputs (retryState (agent example_system)) = []"
    "buildFailures (retryState (agent example_system)) = 0"
    "(0::int) - 0 \<le> timeoutMs (agent example_system)"
    "(1::int) - 1 \<le> timeoutMs (agent example_system)"
    "(2::int) - 2 \<le> timeoutMs (agent example_system)"
    by (simp_all add: example_system_fields)
  from three_identical_outputs [OF h, of "''a''" 0 1 2 "''7''" 3] h show ?thesis
    by (simp add: example_system_fields)
qed

text \<open>
  Claim C4. Every \<open>trackBuildFailure\<close> call adds one to \<open>buildFailures\<close> and stores its
  clock reading in \<open>lastActivity\<close>; when the new count is at least 3 the call puts one
  automatic report in flight, with the reason \<open>Multiple build failures detected\<close> and the
  new count in its error text, and otherwise none. From a state with no build failures,
  three calls put exactly one report in flight (sent by the third); when the endpoint
  answers it with a success the counter is 0 and the request is gone; a fourth call made
  after that sets the counter to 1 and sends no second report.
\<close>

theorem build_failures:
  "retryState (agent (trackBuildFailure t_act t_post w)) =
     \<lparr>outputs = outputs (retryState (agent w)),
      buildFailures = buildFailures (retryState (agent w)) + 1,
      lastActivity = t_act\<rparr>
   \<and> inflight (trackBuildFailure t_act t_post w) =
       inflight w @
       (if buildFailures (retryState (agent w)) + 1 \<ge> 3
        then [(Auto, \<lparr>req_url = apiUrl (agent w) @ ''/bugs'',
                      req_body = \<lparr>body_agentName = agentName (agent w),
                                  body_input = ''Auto-detected issue'',
                                  body_logs = join output_separator (outputs (retryState (agent w))),
                                  body_error =
                                    Some (''Auto-reported: Multiple build failures detected. Build failures: ''
                                          @ show_nat (buildFailures (retryState (agent w)) + 1)),
                                  body_timestamp = t_post\<rparr>\<rparr>)]
        else [])
   \<and> (buildFailures (retryState (agent w)) = 0 \<longrightarrow>
        inflight (run [TrackBuildFailure a1 p1, TrackBuildFailure a2 p2, TrackBuildFailure a3 p3] w) =
          inflight w @
          [(Auto, \<lparr>req_url = apiUrl (agent w) @ ''/bugs'',
                   req_body = \<lparr>body_agentName = agentName (agent w),
                               body_input = ''Auto-detected issue'',
                               body_logs = join output_separator (outputs (retryState (agent w))),
                               body_error =
                                 Some ''Auto-reported: Multiple build failures detected. Build failures: 3'',
                               body_timestamp = p3\<rparr>\<rparr>)]
      \<and> buildFailures (retryState (agent (run
            [TrackBuildFailure a1 p1, TrackBuildFailure a2 p2, TrackBuildFailure a3 p3,
             Settle (length (inflight w)) (Success rid) t] w))) = 0
      \<and> inflight (run
            [TrackBuildFailure a1 p1, TrackBuildFailure a2 p2, TrackBuildFailure a3 p3,
             Settle (length (inflight w)) (Success rid) t] w) = inflight w
      \<and> buildFailures (retryState (agent (run
            [TrackBuildFailure a1 p1, TrackBuildFailure a2 p2, TrackBuildFailure a3 p3,
             Settle (length (inflight w)) (Success rid) t, TrackBuildFailure a4 p4] w))) = 1
      \<and> inflight (run
            [TrackBuildFailure a1 p1, TrackBuildFailure a2 p2, TrackBuildFailure a3 p3,
             Settle (length (inflight w)) (Success rid) t, TrackBuildFailure a4 p4] w) = inflight w)"
proof -
  let ?w1 = "trackBuildFailure a1 p1 w"
  let ?w2 = "trackBuildFailure a2 p2 ?w1"
  let ?w3 = "trackBuildFailure a3 p3 ?w2"
  let ?w4 = "settle (length (inflight w)) (Success rid) t ?w3"
  let ?w5 = "trackBuildFailure a4 p4 ?w4"
  have A: "retryState (agent (trackBuildFailure t_act t_post w)) =
     \<lparr>outputs = outputs (retryState (agent w)),
      buildFailures = buildFailures (retryState (agent w)) + 1,
      lastActivity = t_act\<rparr>"
    by (simp add: trackBuildFailure_fields)
  have B: "inflight (trackBuildFailure t_act t_post w) =
       inflight w @
       (if buildFailures (retryState (agent w)) + 1 \<ge> 3
        then [(Auto, \<lparr>req_url = apiUrl (agent w) @ ''/bugs'',
                      req_body = \<lparr>body_agentName = agentName (agent w),
                                  body_input = ''Auto-detected issue'',
                                  body_logs = join output_separator (outputs (retryState (agent w))),
                                  body_error =
                                    Some (''Auto-reported: Multiple build failures detected. Build failures: ''
                                          @ show_nat (buildFailures (retryState (agent w)) + 1)),
                                  body_timestamp = t_post\<rparr>\<rparr>)]
        else [])"
    by (simp add: inflight_trackBuildFailure auto_request_def auto_error_def)
  have C: ?thesis if z: "buildFailures (retryState (agent w)) = 0"
  proof -
    have i1: "inflight ?w1 = inflight w"
      using z by (simp add: inflight_trackBuildFailure)
    have i2: "inflight ?w2 = inflight w"
      using z i1 by (simp add: inflight_trackBuildFailure trackBuildFailure_fields)
    have i3: "inflight ?w3 =
                inflight w @ [auto_request (agent w) ''Multiple build failures detected''
                                (outputs (retryState (agent w))) 3 p3]"
      using z i2
      by (simp add: inflight_trackBuildFailure trackBuildFailure_fields auto_request_def
          numeral_3_eq_3)
    have k: "length (inflight w) < length (inflight ?w3)"
      "fst (inflight ?w3 ! length (inflight w)) = Auto"
      by (simp_all add: i3 auto_request_def)
    have r4: "retryState (agent ?w4) = \<lparr>outputs = [], buildFailures = 0, lastActivity = t\<rparr>"
      by (simp add: settle_Auto_Success(1) [OF k] retryState_resetRetryDetection)
    have i4: "inflight ?w4 = inflight w"
      by (simp add: settle_Auto_Success(2) [OF k] i3)
    have r5: "buildFailures (retryState (agent ?w5)) = 1"
      by (simp add: trackBuildFailure_fields r4)
    have i5: "inflight ?w5 = inflight w"
      by (simp add: inflight_trackBuildFailure r4 i4)
    have e: "auto_error ''Multiple build failures detected'' 3 =
               ''Auto-reported: Multiple build failures detected. Build failures: 3''"
      by (simp add: auto_error_def show_nat_3)
    show ?thesis
      using A B i3 r4 i4 r5 i5 by (simp add: run_Cons run_Nil auto_request_def e)
  qed
  show ?thesis
  proof (cases "buildFailures (retryState (agent w)) = 0")
    case True
    then show ?thesis by (rule C)
  next
    case False
    with A B show ?thesis by simp
  qed
qed


theorem build_failures_witness:
  "buildFailures (retryState (agent example_system)) = 0
   \<and> retryState (agent (trackBuildFailure 1 1 example_system)) =
       \<lparr>outputs = [], buildFailures = 1, lastActivity = 1\<rparr>
   \<and> inflight (trackBuildFailure 1 1 example_system) = []
   \<and> inflight (run [TrackBuildFailure 1 1, TrackBuildFailure 2 2, TrackBuildFailure 3 3]
        example_system) =
       [(Auto, \<lparr>req_url = ''https://bugboard.ai/api/bugs'',
                req_body = \<lparr>body_agentName = ''agent'',
                            body_input = ''Auto-detected issue'',
                            body_logs = [],
                            body_error =
                              Some ''Auto-reported: Multiple build failures detected. Build failures: 3'',
                            body_timestamp = 3\<rparr>\<rparr>)]
   \<and> buildFailures (retryState (agent (run
         [TrackBuildFailure 1 1, TrackBuildFailure 2 2, TrackBuildFailure 3 3,
          Settle 0 (Success ''7'') 4] example_system))) = 0
   \<and> buildFailures (retryState (agent (run
         [TrackBuildFailure 1 1, TrackBuildFailure 2 2, TrackBuildFailure 3 3,
          Settle 0 (Success ''7'') 4, TrackBuildFailure 5 5] example_system))) = 1
   \<and> inflight (run
         [TrackBuildFailure 1 1, TrackBuildFailure 2 2, TrackBuildFailure 3 3,
          Settle 0 (Success ''7'') 4, TrackBuildFailure 5 5] example_system) = []"
  using build_failures [where w = example_system and t_act = 1 and t_post = 1
      and ?a1.0 = 1 and ?p1.0 = 1 and ?a2.0 = 2 and ?p2.0 = 2 and ?a3.0 = 3 and ?p3.0 = 3
      and rid = "''7''" and t = 4 and ?a4.0 = 5 and ?p4.0 = 5]
  by (simp add: example_system_fields)

text \<open>
  The reset is made when the response arrives. A fourth call that comes before the
  response finds the counter at 3, raises it to 4 and sends a second report.
\<close>

lemma fourth_failure_before_response:
  assumes "buildFailures (retryState (agent w)) = 0"
  shows "inflight (run [TrackBuildFailure a1 p1, TrackBuildFailure a2 p2, TrackBuildFailure a3 p3,
                        TrackBuildFailure a4 p4] w) =
           inflight w @
           [auto_request (agent w) ''Multiple build failures detected''
              (outputs (retryState (agent w))) 3 p3,
            auto_request (agent w) ''Multiple build failures detected''
              (outputs (retryState (agent w))) 4 p4]"
  using assms
  by (simp add: run_Cons run_Nil inflight_trackBuildFailure trackBuildFailure_fields
      auto_request_def numeral_3_eq_3 eval_nat_numeral)

section \<open>The output history\<close>

lemma step_outputs:
  assumes "outputs (retryState (agent w)) = slice_last 5 h"
  shows "outputs (retryState (agent (step e w))) =
           slice_last 5 (if resets e w then []
                         else case e of TrackOutput out t_act t_chk t_post \<Rightarrow> h @ [out] | _ \<Rightarrow> h)"
proof (cases e)
  case (TrackOutput out t_act t_chk t_post)
  have "length (slice_last 5 h) \<le> 5" by (rule length_slice_last)
  then have "pushed (slice_last 5 h) out = slice_last 5 (h @ [out])"
    by (simp add: pushed_slice_last slice_last_snoc)
  with assms TrackOutput show ?thesis by (simp add: trackOutput_fields)
next
  case (TrackBuildFailure t_act t_post)
  with assms show ?thesis by (simp add: trackBuildFailure_fields)
next
  case (ResetRetryDetection now)
  then show ?thesis by (simp add: retryState_resetRetryDetection slice_last_def)
next
  case (SetTimeout ms)
  with assms show ?thesis by (simp add: setTimeout_def)
next
  case (ReportBug data now)
  with assms show ?thesis by (simp add: reportBug_def)
next
  case (Settle k resp now)
  show ?thesis
  proof (cases "k < length (inflight w)")
    case False
    with assms Settle show ?thesis by (cases resp) (simp_all add: settle_out_of_range)
  next
    case True
    note k = this
    show ?thesis
    proof (cases "fst (inflight w ! k)")
      case Manual
      with assms Settle k show ?thesis by (cases resp) (simp_all add: settle_Manual)
    next
      case Auto
      show ?thesis
      proof (cases resp)
        case (Success rid)
        with Settle k Auto show ?thesis
          by (simp add: settle_Auto_Success retryState_resetRetryDetection slice_last_def)
      next
        case (Failure err)
        with assms Settle k Auto show ?thesis by (simp add: settle_Auto_Failure)
      qed
    qed
  qed
qed

lemma run_outputs:
  "outputs (retryState (agent w)) = slice_last 5 h \<Longrightarrow>
   outputs (retryState (agent (run es w))) = slice_last 5 (tracked_since_reset es w h)"
proof (induction es arbitrary: w h)
  case Nil
  then show ?case by (simp add: run_Nil)
next
  case (Cons e es)
  from Cons.prems have "outputs (retryState (agent (step e w))) =
      slice_last 5 (if resets e w then []
                    else case e of TrackOutput out t_act t_chk t_post \<Rightarrow> h @ [out] | _ \<Rightarrow> h)"
    by (rule step_outputs)
  then have "outputs (retryState (agent (run es (step e w)))) =
      slice_last 5 (tracked_since_reset es (step e w)
        (if resets e w then []
         else case e of TrackOutput out t_act t_chk t_post \<Rightarrow> h @ [out] | _ \<Rightarrow> h))"
    by (rule Cons.IH)
  then show ?case by (simp add: run_Cons)
qed

text \<open>
  Claim C5. Along every run of an agent from its construction (calls of
  \<open>trackOutput\<close> interleaved with any other calls and with the arrival of responses),
  the output history holds at most 5 entries, and it is exactly the last 5 (or all, if
  fewer) of the outputs tracked since the last reset, in the order of their arrival: the
  oldest is evicted first.
\<close>

theorem output_history_bounded:
  "length (outputs (retryState (agent (run es (createBugBoardAgent options now))))) \<le> 5
   \<and> outputs (retryState (agent (run es (createBugBoardAgent options now)))) =
       slice_last 5 (tracked_since_reset es (createBugBoardAgent options now) [])"
proof -
  have "outputs (retryState (agent (createBugBoardAgent options now))) = slice_last 5 []"
    by (simp add: createBugBoardAgent_fields slice_last_def)
  then have "outputs (retryState (agent (run es (createBugBoardAgent options now)))) =
       slice_last 5 (tracked_since_reset es (createBugBoardAgent options now) [])"
    by (rule run_outputs)
  then show ?thesis by (simp add: length_slice_last)
qed

theorem output_history_bounded_witness:
  "outputs (retryState (agent (run
      [TrackOutput ''a'' 0 0 0, ResetRetryDetection 1, TrackOutput ''b'' 2 2 2,
       TrackOutput ''c'' 3 3 3, TrackBuildFailure 4 4, TrackOutput ''d'' 5 5 5,
       TrackOutput ''e'' 6 6 6, TrackOutput ''f'' 7 7 7, TrackOutput ''g'' 8 8 8]
      (createBugBoardAgent \<lparr>opt_apiUrl = None, opt_agentName = ''agent''\<rparr> 0)))) =
     [''c'', ''d'', ''e'', ''f'', ''g'']"
  using output_history_bounded [of
      "[TrackOutput ''a'' 0 0 0, ResetRetryDetection 1, TrackOutput ''b'' 2 2 2,
        TrackOutput ''c'' 3 3 3, TrackBuildFailure 4 4, TrackOutput ''d'' 5 5 5,
        TrackOutput ''e'' 6 6 6, TrackOutput ''f'' 7 7 7, TrackOutput ''g'' 8 8 8]"
      "\<lparr>opt_apiUrl = None, opt_agentName = ''agent''\<rparr>" 0]
  by (simp add: slice_last_def)

section \<open>The repetition check\<close>

lemma take_rev_last:
  assumes "take (Suc k) (rev outs) = x # xs"
  shows "outs \<noteq> [] \<and> last outs = x"
proof (cases outs rule: rev_cases)
  case Nil
  with assms show ?thesis by simp
next
  case (snoc ys y)
  with assms show ?thesis by simp
qed

lemma is_loop_report_auto_request:
  "is_loop_report (auto_request this ''Agent stuck in output loop'' outs n post)"
  "\<not> is_loop_report (auto_request this ''Agent timed out'' outs n post)"
  "\<not> is_loop_report (auto_request this ''Multiple build failures detected'' outs n post)"
  by (simp_all add: is_loop_report_def auto_request_def auto_error_def)

lemma loop_reports_trackOutput:
  "filter is_loop_report (inflight (trackOutput out t_act t_chk t_post w)) =
     filter is_loop_report (inflight w) @
     (if \<not> t_chk - t_act > timeoutMs (agent w) \<and> repeats3 (pushed (outputs (retryState (agent w))) out)
      then [auto_request (agent w) ''Agent stuck in output loop''
              (pushed (outputs (retryState (agent w))) out)
              (buildFailures (retryState (agent w))) t_post]
      else [])"
  by (simp add: inflight_trackOutput is_loop_report_auto_request)

lemma no_repeat_after_distinct:
  assumes "a \<noteq> b"
  shows "\<not> repeats3 (pushed (pushed outs a) b)"
proof
  assume "repeats3 (pushed (pushed outs a) b)"
  then have "take 2 (rev (pushed outs a)) = [b, b]" by (simp only: repeats3_pushed)
  then have "a # take 1 (rev outs) = [b, b]" by (simp only: take2_rev_pushed)
  with assms show False by simp
qed

lemma no_repeat_first:
  assumes "outs = [] \<or> last outs \<noteq> a"
  shows "\<not> repeats3 (pushed outs a)"
proof
  assume "repeats3 (pushed outs a)"
  then have "take (Suc 1) (rev outs) = [a, a]" by (simp add: repeats3_pushed numeral_2_eq_2)
  then have "outs \<noteq> [] \<and> last outs = a" by (rule take_rev_last)
  with assms show False by simp
qed

lemma no_repeat_second:
  assumes "outs = [] \<or> last outs \<noteq> a"
  shows "\<not> repeats3 (pushed (pushed outs a) a)"
proof
  assume "repeats3 (pushed (pushed outs a) a)"
  then have "take 2 (rev (pushed outs a)) = [a, a]" by (simp only: repeats3_pushed)
  then have "a # take 1 (rev outs) = [a, a]" by (simp only: take2_rev_pushed)
  then have "take (Suc 0) (rev outs) = [a]" by simp
  then have "outs \<noteq> [] \<and> last outs = a" by (rule take_rev_last)
  with assms show False by simp
qed

text \<open>
  Claim C8. Two consecutive \<open>trackOutput\<close> calls with the same text followed by a call
  with a different text trigger no automatic report from the repetition check. For
  every state, the third call (the one whose text differs from its predecessor) adds no
  report of the repetition check. When the two identical outputs are a run of exactly
  two (the history before them is empty or ends in a different text), none of the three
  calls adds such a report, and if moreover no call sees more than \<open>timeoutMs\<close> pass
  between its two clock readings, the three calls send no report at all.
\<close>

theorem two_identical_then_distinct:
  assumes "a \<noteq> b"
  shows "filter is_loop_report
           (inflight (trackOutput b a3 c3 p3 (trackOutput a a2 c2 p2 (trackOutput a a1 c1 p1 w)))) =
         filter is_loop_report
           (inflight (trackOutput a a2 c2 p2 (trackOutput a a1 c1 p1 w)))
       \<and> (outputs (retryState (agent w)) = [] \<or> last (outputs (retryState (agent w))) \<noteq> a \<longrightarrow>
            filter is_loop_report
              (inflight (run [TrackOutput a a1 c1 p1, TrackOutput a a2 c2 p2, TrackOutput b a3 c3 p3] w)) =
            filter is_loop_report (inflight w)
          \<and> (c1 - a1 \<le> timeoutMs (agent w) \<and> c2 - a2 \<le> timeoutMs (agent w)
               \<and> c3 - a3 \<le> timeoutMs (agent w) \<longrightarrow>
              inflight (run [TrackOutput a a1 c1 p1, TrackOutput a a2 c2 p2, TrackOutput b a3 c3 p3] w) =
              inflight w))"
proof -
  let ?o = "outputs (retryState (agent w))"
  let ?w1 = "trackOutput a a1 c1 p1 w"
  let ?w2 = "trackOutput a a2 c2 p2 ?w1"
  let ?w3 = "trackOutput b a3 c3 p3 ?w2"
  have o1: "outputs (retryState (agent ?w1)) = pushed ?o a"
    by (simp add: trackOutput_fields)
  have o2: "outputs (retryState (agent ?w2)) = pushed (pushed ?o a) a"
    by (simp add: trackOutput_fields)
  have n3: "\<not> repeats3 (pushed (pushed (pushed ?o a) a) b)"
    using assms by (rule no_repeat_after_distinct)
  have third: "filter is_loop_report (inflight ?w3) = filter is_loop_report (inflight ?w2)"
    using n3 by (simp add: loop_reports_trackOutput [of b] o2)
  have i3: "inflight ?w3 = inflight ?w2" if "c3 - a3 \<le> timeoutMs (agent w)"
    using n3 that by (simp add: inflight_trackOutput [of b] o2 trackOutput_fields)
  have rest: "filter is_loop_report (inflight ?w2) = filter is_loop_report (inflight w)
      \<and> (c1 - a1 \<le> timeoutMs (agent w) \<and> c2 - a2 \<le> timeoutMs (agent w) \<longrightarrow> inflight ?w2 = inflight w)"
    if h: "?o = [] \<or> last ?o \<noteq> a"
  proof -
    have n1: "\<not> repeats3 (pushed ?o a)" using h by (rule no_repeat_first)
    have n2: "\<not> repeats3 (pushed (pushed ?o a) a)" using h by (rule no_repeat_second)
    have l1: "filter is_loop_report (inflight ?w1) = filter is_loop_report (inflight w)"
      using n1 by (simp add: loop_reports_trackOutput)
    have l2: "filter is_loop_report (inflight ?w2) = filter is_loop_report (inflight ?w1)"
      using n2 by (simp add: loop_reports_trackOutput [of a a2] o1)
    have i1: "inflight ?w1 = inflight w" if "c1 - a1 \<le> timeoutMs (agent w)"
      using n1 that by (simp add: inflight_trackOutput)
    have i2: "inflight ?w2 = inflight ?w1" if "c2 - a2 \<le> timeoutMs (agent w)"
      using n2 that by (simp add: inflight_trackOutput [of a a2] o1 trackOutput_fields)
    from l1 l2 i1 i2 show ?thesis by simp
  qed
  from third i3 rest show ?thesis by (simp add: run_Cons run_Nil)
qed

theorem two_identical_then_distinct_witness:
  "''a'' \<noteq> ''b''
   \<and> outputs (retryState (agent example_system)) = []
   \<and> (0::int) - 0 \<le> timeoutMs (agent example_system)
   \<and> (1::int) - 1 \<le> timeoutMs (agent example_system)
   \<and> (2::int) - 2 \<le> timeoutMs (agent example_system)
   \<and> inflight (run [TrackOutput ''a'' 0 0 0, TrackOutput ''a'' 1 1 1, TrackOutput ''b'' 2 2 2]
        example_system) = []"
proof -
  have h: "''a'' \<noteq> ''b''" by simp
  from two_identical_then_distinct [OF h, where w = example_system
      and ?a1.0 = 0 and ?c1.0 = 0 and ?p1.0 = 0 and ?a2.0 = 1 and ?c2.0 = 1 and ?p2.0 = 1
      and ?a3.0 = 2 and ?c3.0 = 2 and ?p3.0 = 2]
  show ?thesis by (simp add: example_system_fields)
qed

section \<open>Manual reports\<close>

lemma settle_reportBug:
  "settle (length (inflight w)) resp t' (reportBug data t w) =
     (case reportBug_settle (agent w) resp (console w) of
        (res, con) \<Rightarrow> w\<lparr>console := con, settled := settled w @ [res]\<rparr>)"
  by (simp add: settle_def reportBug_def split: prod.splits)

lemma reportBug_settle_Success:
  "reportBug_settle this (Success rid) con =
     (Inr \<lparr>result_id = rid,
           result_url = js_replace ''/api'' '''' (apiUrl this) @ ''/bugs/'' @ rid\<rparr>, con)"
  by (simp add: reportBug_settle_def)

lemma sublist_id_url: "sublist rid (base @ ''/bugs/'' @ rid)"
  by (metis sublist_appendI append.assoc append_Nil2)

text \<open>
  Claim C7. A manual \<open>reportBug\<close> whose request the endpoint answers with the body
  \<open>{id: "42"}\<close> settles successfully with \<open>id\<close> equal to \<open>"42"\<close> and with a \<open>url\<close> that
  contains \<open>"42"\<close>: the identifier appended, after \<open>"/bugs/"\<close>, to a base derived from the
  configured \<open>apiUrl\<close>. This holds for every agent, every report data and every state
  of the system in which the call is made.
\<close>

theorem reportBug_success_42:
  "settled (settle (length (inflight w)) (Success ''42'') t' (reportBug data t w)) =
     settled w @ [Inr \<lparr>result_id = ''42'',
                       result_url = js_replace ''/api'' '''' (apiUrl (agent w)) @ ''/bugs/'' @ ''42''\<rparr>]
   \<and> sublist ''42'' (js_replace ''/api'' '''' (apiUrl (agent w)) @ ''/bugs/'' @ ''42'')"
  unfolding settle_reportBug reportBug_settle_Success using sublist_id_url [of "''42''"] by simp

theorem reportBug_success_42_witness:
  "settled (settle 0 (Success ''42'') 1
      (reportBug \<lparr>input = ''x'', logs = ''y'', error = None\<rparr> 0 example_system)) =
     [Inr \<lparr>result_id = ''42'', result_url = ''https://bugboard.ai/bugs/42''\<rparr>]"
  using reportBug_success_42 [of example_system 1 "\<lparr>input = ''x'', logs = ''y'', error = None\<rparr>" 0]
  by (simp add: example_system_fields)

section \<open>Failures of the endpoint\<close>

text \<open>
  Claim C6. When the endpoint fails, \<open>reportBug\<close> logs the error and throws it again: the
  promise of a manual call settles as rejected with that error. The same failure inside
  \<open>autoReportBug\<close> is caught and logged a second time; the promise of \<open>autoReportBug\<close> is
  fulfilled, nothing reaches any caller, and the agent is left as it was. The calls
  \<open>trackOutput\<close> and \<open>trackBuildFailure\<close> themselves return before any response arrives
  and hand no outcome to their caller.
\<close>

theorem sink_failure_propagation:
  "fst (reportBug_settle this (Failure e) con) = Inl e
   \<and> snd (reportBug_settle this (Failure e) con) = con @ [(''Failed to report bug to BugBoard AI:'', e)]
   \<and> fst (autoReportBug_settle (Failure e) now w) = Inr ()
   \<and> (k < length (inflight w) \<and> fst (inflight w ! k) = Manual \<longrightarrow>
        settled (settle k (Failure e) now w) = settled w @ [Inl e])
   \<and> (k < length (inflight w) \<and> fst (inflight w ! k) = Auto \<longrightarrow>
        settled (settle k (Failure e) now w) = settled w
        \<and> console (settle k (Failure e) now w) =
            console w @ [(''Failed to report bug to BugBoard AI:'', e),
                         (''Failed to auto-report bug:'', e)]
        \<and> agent (settle k (Failure e) now w) = agent w)
   \<and> settled (trackOutput out t_act t_chk t_post w) = settled w
   \<and> settled (trackBuildFailure t_act t_post w) = settled w"
proof -
  have m: "fst (reportBug_settle this (Failure e) con) = Inl e"
    "snd (reportBug_settle this (Failure e) con) = con @ [(''Failed to report bug to BugBoard AI:'', e)]"
    by (simp_all add: reportBug_settle_def)
  have m': "fst (reportBug_settle (agent w) (Failure e) (console w)) = Inl e"
    by (simp add: reportBug_settle_def)
  have a: "fst (autoReportBug_settle (Failure e) now w) = Inr ()"
    by (simp add: autoReportBug_settle_def reportBug_settle_def)
  show ?thesis
    using m a by (simp add: settle_Manual m' settle_Auto_Failure trackOutput_fields trackBuildFailure_fields)
qed

theorem sink_failure_propagation_witness:
  "0 < length (inflight manual_system) \<and> fst (inflight manual_system ! 0) = Manual
   \<and> settled (settle 0 (Failure ''503'') 1 manual_system) = [Inl ''503'']
   \<and> 0 < length (inflight stuck_system) \<and> fst (inflight stuck_system ! 0) = Auto
   \<and> settled (settle 0 (Failure ''503'') 3 stuck_system) = []
   \<and> console (settle 0 (Failure ''503'') 3 stuck_system) =
       [(''Failed to report bug to BugBoard AI:'', ''503''), (''Failed to auto-report bug:'', ''503'')]"
  using sink_failure_propagation [where w = manual_system and k = 0 and e = "''503''" and now = 1]
    sink_failure_propagation [where w = stuck_system and k = 0 and e = "''503''" and now = 3]
  by (simp add: manual_system_fields stuck_system_fields auto_request_def)

section \<open>Frame properties\<close>

text \<open>
  Claim C9. A \<open>trackOutput\<close> call leaves \<open>buildFailures\<close> unchanged and a
  \<open>trackBuildFailure\<close> call leaves \<open>outputs\<close> unchanged (whether or not the call sends a
  report: the reset that follows a report is made when its response arrives). A manual
  \<open>reportBug\<close> call changes no field of the detection state, neither when it is made nor
  when its response arrives, be it a success or a failure.
\<close>

theorem frame_properties:
  "buildFailures (retryState (agent (trackOutput out t_act t_chk t_post w))) =
     buildFailures (retryState (agent w))
   \<and> outputs (retryState (agent (trackBuildFailure t_act' t_post' w))) =
       outputs (retryState (agent w))
   \<and> retryState (agent (reportBug data now w)) = retryState (agent w)
   \<and> (k < length (inflight w) \<and> fst (inflight w ! k) = Manual \<longrightarrow>
        retryState (agent (settle k resp now' w)) = retryState (agent w))"
  by (simp add: trackOutput_fields trackBuildFailure_fields reportBug_def settle_Manual)

theorem frame_properties_witness:
  "0 < length (inflight manual_system) \<and> fst (inflight manual_system ! 0) = Manual
   \<and> retryState (agent (settle 0 (Failure ''503'') 1 manual_system)) =
       \<lparr>outputs = [], buildFailures = 0, lastActivity = 0\<rparr>
   \<and> retryState (agent (settle 0 (Success ''42'') 1 manual_system)) =
       \<lparr>outputs = [], buildFailures = 0, lastActivity = 0\<rparr>
   \<and> buildFailures (retryState (agent (trackOutput ''a'' 1 1 1 manual_system))) = 0
   \<and> outputs (retryState (agent (trackBuildFailure 1 1 manual_system))) = []"
  using frame_properties [where w = manual_system and k = 0 and resp = "Failure ''503''" and now' = 1
      and out = "''a''" and t_act = 1 and t_chk = 1 and t_post = 1 and t_act' = 1 and t_post' = 1]
    frame_properties [where w = manual_system and k = 0 and resp = "Success ''42''" and now' = 1]
  by (simp add: manual_system_fields example_system_fields)

section \<open>The report URL\<close>

lemma js_replace_prefix:
  "prefix pat s \<Longrightarrow> js_replace pat rep s = rep @ drop (length pat) s"
  by (cases s) simp_all

lemma js_replace_self: "\<not> sublist pat s \<Longrightarrow> js_replace pat rep s = s"
proof (induction s)
  case Nil
  then show ?case by simp
next
  case (Cons c cs)
  from Cons.prems have "\<not> prefix pat (c # cs)" and "\<not> sublist pat cs"
    by (simp_all add: sublist_Cons_right)
  with Cons.IH show ?case by simp
qed

lemma js_replace_first:
  "(\<And>j. j < length pre \<Longrightarrow> \<not> prefix pat (drop j (pre @ pat @ post))) \<Longrightarrow>
   js_replace pat rep (pre @ pat @ post) = pre @ rep @ post"
proof (induction pre)
  case Nil
  have "prefix pat (pat @ post)" by simp
  then have "js_replace pat rep (pat @ post) = rep @ drop (length pat) (pat @ post)"
    by (rule js_replace_prefix)
  then show ?case by simp
next
  case (Cons c pre)
  have "\<not> prefix pat (drop 0 ((c # pre) @ pat @ post))"
    by (rule Cons.prems) simp
  then have np: "\<not> prefix pat (c # pre @ pat @ post)" by simp
  have "js_replace pat rep (pre @ pat @ post) = pre @ rep @ post"
  proof (rule Cons.IH)
    fix j assume "j < length pre"
    then have "Suc j < length (c # pre)" by simp
    then have "\<not> prefix pat (drop (Suc j) ((c # pre) @ pat @ post))" by (rule Cons.prems)
    then show "\<not> prefix pat (drop j (pre @ pat @ post))" by simp
  qed
  with np show ?case by simp
qed


lemma first_occurrence_None:
  assumes "first_occurrence pat s = None"
  shows "\<not> sublist pat s"
proof
  assume "sublist pat s"
  then obtain ps ss where s: "s = ps @ pat @ ss" by (auto simp: sublist_def)
  then have "length ps \<in> set [0..<Suc (length s)]" by simp
  moreover from s have "prefix pat (drop (length ps) s)" by simp
  ultimately have "\<exists>i. i \<in> set [0..<Suc (length s)] \<and> prefix pat (drop i s)" by blast
  moreover from assms have "\<not> (\<exists>i. i \<in> set [0..<Suc (length s)] \<and> prefix pat (drop i s))"
    unfolding first_occurrence_def find_None_iff .
  ultimately show False by contradiction
qed

lemma first_occurrence_Some:
  assumes "first_occurrence pat s = Some i"
  shows "i \<le> length s" and "prefix pat (drop i s)" and "\<And>j. j < i \<Longrightarrow> \<not> prefix pat (drop j s)"
proof -
  from assms obtain k where k: "k < length [0..<Suc (length s)]"
    "prefix pat (drop ([0..<Suc (length s)] ! k) s)" "i = [0..<Suc (length s)] ! k"
    "\<forall>j<k. \<not> prefix pat (drop ([0..<Suc (length s)] ! j) s)"
    unfolding first_occurrence_def find_Some_iff by blast
  from k(1) have kl: "k < Suc (length s)" by simp
  then have ik: "i = k" using k(3) by (simp del: upt_Suc)
  from kl ik show "i \<le> length s" by simp
  from k(2) k(3) show "prefix pat (drop i s)" by simp
  fix j assume "j < i"
  with ik have jk: "j < k" by simp
  with kl have "[0..<Suc (length s)] ! j = j" by (simp del: upt_Suc)
  with k(4) jk show "\<not> prefix pat (drop j s)" by (metis)
qed

lemma js_replace_first_occurrence:
  "js_replace pat rep s =
     (case first_occurrence pat s of
        None \<Rightarrow> s
      | Some i \<Rightarrow> take i s @ rep @ drop (i + length pat) s)"
proof (cases "first_occurrence pat s")
  case None
  then have "\<not> sublist pat s" by (rule first_occurrence_None)
  then have "js_replace pat rep s = s" by (rule js_replace_self)
  with None show ?thesis by simp
next
  case (Some i)
  note f = first_occurrence_Some [OF Some]
  from f(2) obtain ss where ss: "drop i s = pat @ ss" by (auto simp: prefix_def)
  have s: "s = take i s @ pat @ ss"
    using ss by (metis append_take_drop_id)
  have l: "length (take i s) = i" using f(1) by simp
  have d: "drop (i + length pat) s = ss"
    using ss by (metis add.commute append_eq_conv_conj drop_drop)
  have "js_replace pat rep (take i s @ pat @ ss) = take i s @ rep @ ss"
  proof (rule js_replace_first)
    fix j assume "j < length (take i s)"
    with l have "j < i" by simp
    then have "\<not> prefix pat (drop j s)" by (rule f(3))
    with s show "\<not> prefix pat (drop j (take i s @ pat @ ss))" by simp
  qed
  with s d Some show ?thesis by simp
qed

lemma without_first_occurrence_eq: "without_first_occurrence pat s = js_replace pat [] s"
  by (simp add: without_first_occurrence_def js_replace_first_occurrence split: option.split)

lemma first_occurrence_host: "first_occurrence ''/api'' ''https://api.example.com/api'' = Some 7"
  by code_simp

lemma no_occurrence_local: "\<not> sublist ''/api'' ''http://localhost:3001''"
  by code_simp

text \<open>
  Claim C10. For every configured \<open>apiUrl\<close> and every identifier returned by the
  endpoint, the \<open>url\<close> of the result is the \<open>apiUrl\<close> with only the first occurrence of
  \<open>"/api"\<close> removed, followed by \<open>"/bugs/"\<close> and the identifier. If \<open>"/api"\<close> does not
  occur in the \<open>apiUrl\<close>, the base is the \<open>apiUrl\<close> itself; if the \<open>apiUrl\<close> is
  \<open>pre @ "/api" @ post\<close> with no occurrence starting inside \<open>pre\<close>, the base is
  \<open>pre @ post\<close>, also when further occurrences follow in \<open>post\<close> (for
  \<open>https://api.example.com/api\<close> the occurrence that goes is the one that starts at the
  second slash of the scheme separator).
\<close>

theorem report_url_first_occurrence:
  "settled (settle (length (inflight w)) (Success rid) t' (reportBug data t w)) =
     settled w @
     [Inr \<lparr>result_id = rid,
           result_url = without_first_occurrence ''/api'' (apiUrl (agent w)) @ ''/bugs/'' @ rid\<rparr>]
   \<and> (\<not> sublist ''/api'' (apiUrl (agent w)) \<longrightarrow>
        without_first_occurrence ''/api'' (apiUrl (agent w)) = apiUrl (agent w))
   \<and> (\<forall>pre post.
        apiUrl (agent w) = pre @ ''/api'' @ post
        \<and> (\<forall>j<length pre. \<not> prefix ''/api'' (drop j (apiUrl (agent w)))) \<longrightarrow>
        without_first_occurrence ''/api'' (apiUrl (agent w)) = pre @ post)"
proof -
  have u: "settled (settle (length (inflight w)) (Success rid) t' (reportBug data t w)) =
     settled w @
     [Inr \<lparr>result_id = rid,
           result_url = without_first_occurrence ''/api'' (apiUrl (agent w)) @ ''/bugs/'' @ rid\<rparr>]"
    by (simp add: settle_reportBug reportBug_settle_Success without_first_occurrence_eq)
  have n: "without_first_occurrence ''/api'' (apiUrl (agent w)) = apiUrl (agent w)"
    if "\<not> sublist ''/api'' (apiUrl (agent w))"
    using that by (simp add: without_first_occurrence_eq js_replace_self)
  have f: "without_first_occurrence ''/api'' (apiUrl (agent w)) = pre @ post"
    if "apiUrl (agent w) = pre @ ''/api'' @ post"
      and "\<forall>j<length pre. \<not> prefix ''/api'' (drop j (apiUrl (agent w)))" for pre post
  proof -
    have "js_replace ''/api'' [] (pre @ ''/api'' @ post) = pre @ [] @ post"
    proof (rule js_replace_first)
      fix j assume "j < length pre"
      with that show "\<not> prefix ''/api'' (drop j (pre @ ''/api'' @ post))" by simp
    qed
    with that(1) show ?thesis by (simp add: without_first_occurrence_eq)
  qed
  from u n f show ?thesis by blast
qed
theorem report_url_first_occurrence_witness:
  "apiUrl (agent host_system) = ''https:/'' @ ''/api'' @ ''.example.com/api''
   \<and> first_occurrence ''/api'' (apiUrl (agent host_system)) = Some 7
   \<and> settled (settle 0 (Success ''42'') 1
        (reportBug \<lparr>input = ''x'', logs = ''y'', error = None\<rparr> 0 host_system)) =
       [Inr \<lparr>result_id = ''42'', result_url = ''https:/.example.com/api/bugs/42''\<rparr>]
   \<and> \<not> sublist ''/api'' (apiUrl (agent local_system))
   \<and> settled (settle 0 (Success ''42'') 1
        (reportBug \<lparr>input = ''x'', logs = ''y'', error = None\<rparr> 0 local_system)) =
       [Inr \<lparr>result_id = ''42'', result_url = ''http://localhost:3001/bugs/42''\<rparr>]"
  using report_url_first_occurrence [where w = host_system and rid = "''42''" and t' = 1 and t = 0
      and data = "\<lparr>input = ''x'', logs = ''y'', error = None\<rparr>"]
    report_url_first_occurrence [where w = local_system and rid = "''42''" and t' = 1 and t = 0
      and data = "\<lparr>input = ''x'', logs = ''y'', error = None\<rparr>"]
  by (simp add: host_system_fields local_system_fields first_occurrence_host no_occurrence_local
      without_first_occurrence_def)

end
